theory Spec2Isabelle
  imports Main "HOL-Library.Multiset" "HOL-Library.Char_ord" "HOL-Library.List_Lexorder"
    "HOL-Library.Product_Lexorder"
begin

section \<open>JavaScript values and objects\<close>

text \<open>
  The messaging hooks pass rows of the \<open>conversations\<close> table around as plain JavaScript
  objects. A value is \<open>undefined\<close>, \<open>null\<close>, a string, a number or an array of strings
  (the \<open>participants\<close> column). A timestamp is a number of milliseconds or an ISO-8601
  string as \<open>toISOString\<close> writes it; both order chronologically. Identifiers are opaque
  and the store hands out serial numbers.
\<close>

datatype jsval = Undefined | Null | Str string | Num int | Arr "string list"

type_synonym obj = "(string \<times> jsval) list"

text \<open>Reading a property: a missing property reads as \<open>undefined\<close>.\<close>

definition getp :: "obj \<Rightarrow> string \<Rightarrow> jsval" where
  "getp ob k = (case map_of ob k of None \<Rightarrow> Undefined | Some v \<Rightarrow> v)"

text \<open>Truthiness, and the operator \<open>a || b\<close>.\<close>

fun truthy :: "jsval \<Rightarrow> bool" where
  "truthy Undefined = False"
| "truthy Null = False"
| "truthy (Str s) = (s \<noteq> [])"
| "truthy (Num n) = (n \<noteq> 0)"
| "truthy (Arr xs) = True"

definition js_or :: "jsval \<Rightarrow> jsval \<Rightarrow> jsval" where
  "js_or a b = (if truthy a then a else b)"

text \<open>An optional string parameter (\<open>subject?: string\<close>) as a value.\<close>

fun opt :: "string option \<Rightarrow> jsval" where
  "opt None = Undefined"
| "opt (Some s) = Str s"


section \<open>The store gateway\<close>

text \<open>
  The persistent store is an external collaborator. It is modelled as one table
  \<open>conversations\<close> with a schema (the column names), its rows, a serial counter for new
  identifiers, an optional uniqueness constraint (the name of the property column that,
  together with the participant set, must be unique) and a flag telling whether the
  backend answers at all. A request that names a column the table does not have fails,
  as does every request while the backend is unavailable.
\<close>

datatype store_error = Unavailable | UndefinedColumn string | UndefinedTable | UniqueViolation

record store =
  columns :: "string list"
  rows :: "obj list"
  next_id :: nat
  unique_key :: "string option"
  online :: bool

datatype filter = Contains string "string list" | Eq string jsval

fun filter_column :: "filter \<Rightarrow> string" where
  "filter_column (Contains c vs) = c"
| "filter_column (Eq c v) = c"

text \<open>
  \<open>contains\<close> is array containment (every requested element occurs in the column's
  array); \<open>eq\<close> is equality of the stored value with the requested one, so a stored
  \<open>null\<close> never equals a string.
\<close>

fun matches :: "obj \<Rightarrow> filter \<Rightarrow> bool" where
  "matches r (Contains c vs) =
     (case getp r c of Arr xs \<Rightarrow> list_all (\<lambda>v. v \<in> set xs) vs | _ \<Rightarrow> False)"
| "matches r (Eq c v) = (getp r c = v)"

text \<open>
  Ordering of a column: numbers by value, strings and arrays lexicographically, and
  \<open>null\<close> above every value, so that a descending order lists it first. A column holds
  values of one type; between types the order is numbers, strings, arrays.
\<close>

fun col_key :: "jsval \<Rightarrow> nat \<times> int \<times> string \<times> string list" where
  "col_key (Num n) = (0, n, [], [])"
| "col_key (Str s) = (1, 0, s, [])"
| "col_key (Arr xs) = (2, 0, [], xs)"
| "col_key Null = (3, 0, [], [])"
| "col_key Undefined = (3, 0, [], [])"

definition col_le :: "jsval \<Rightarrow> jsval \<Rightarrow> bool" where
  "col_le a b = (col_key a \<le> col_key b)"

definition desc_by :: "string \<Rightarrow> obj \<Rightarrow> obj \<Rightarrow> bool" where
  "desc_by c a b = col_le (getp b c) (getp a c)"

fun insert_desc :: "string \<Rightarrow> obj \<Rightarrow> obj list \<Rightarrow> obj list" where
  "insert_desc c r [] = [r]"
| "insert_desc c r (x # xs) =
     (if desc_by c r x then r # x # xs else x # insert_desc c r xs)"

definition order_desc :: "string \<Rightarrow> obj list \<Rightarrow> obj list" where
  "order_desc c rs = foldr (insert_desc c) rs []"

text \<open>
  \<open>from('conversations').select('*')\<close> followed by filters and an optional
  \<open>order(column, { ascending: false })\<close>.
\<close>

definition select_rows ::
  "store \<Rightarrow> filter list \<Rightarrow> string option \<Rightarrow> store_error + obj list" where
  "select_rows s fs ord =
     (if \<not> online s then Inl Unavailable
      else case filter (\<lambda>c. c \<notin> set (columns s)) (map filter_column fs @ (case ord of None \<Rightarrow> [] | Some c \<Rightarrow> [c])) of
        c # _ \<Rightarrow> Inl (UndefinedColumn c)
      | [] \<Rightarrow>
          (let found = filter (\<lambda>r. list_all (matches r) fs) (rows s)
           in Inr (case ord of None \<Rightarrow> found | Some c \<Rightarrow> order_desc c found)))"

text \<open>
  \<open>insert([row]).select()\<close>: the store assigns the identifier, fills the columns the
  request leaves out with \<open>null\<close> and answers with the stored row (the \<open>data[0]\<close> of
  the caller). The uniqueness constraint of the model is the strongest one a deployment
  can give the table, the dedup key itself: a row is refused when a stored row has the
  same participants in any order and the same property value, \<open>null\<close> included. A plain
  \<open>UNIQUE (participants, propertyId)\<close> refuses fewer rows than this one, since it compares
  the arrays in order and never finds two \<open>null\<close>s equal.
\<close>

definition same_key :: "string \<Rightarrow> obj \<Rightarrow> obj \<Rightarrow> bool" where
  "same_key k a b =
     (getp a k = getp b k \<and>
      (case (getp a ''participants'', getp b ''participants'') of
         (Arr xs, Arr ys) \<Rightarrow> set xs = set ys
       | _ \<Rightarrow> False))"

definition stored_row :: "store \<Rightarrow> obj \<Rightarrow> obj" where
  "stored_row s r =
     map (\<lambda>c. (c, if c = ''id'' then Num (int (next_id s))
                  else case map_of r c of None \<Rightarrow> Null | Some v \<Rightarrow> v)) (columns s)"

definition insert_row :: "store \<Rightarrow> obj \<Rightarrow> (store_error + obj) \<times> store" where
  "insert_row s r =
     (if \<not> online s then (Inl Unavailable, s)
      else case filter (\<lambda>c. c \<notin> set (columns s)) (map fst r) of
        c # _ \<Rightarrow> (Inl (UndefinedColumn c), s)
      | [] \<Rightarrow>
          (if (case unique_key s of None \<Rightarrow> False
               | Some k \<Rightarrow> list_ex (same_key k (stored_row s r)) (rows s))
           then (Inl UniqueViolation, s)
           else (Inr (stored_row s r),
                 s\<lparr>rows := rows s @ [stored_row s r], next_id := Suc (next_id s)\<rparr>)))"

section \<open>The conversation hooks\<close>

text \<open>
  The React state of \<open>useConversations\<close>: the conversation list, the current
  selection and the loading flag. \<open>None\<close> stands for \<open>null\<close>.
\<close>

record conversations_state =
  loading :: bool
  conversations :: "obj list"
  currentConversation :: "obj option"

subsection \<open>\<open>useConversations\<close>: the list fetch on the client's own field names\<close>

text \<open>
  \<open>ensureTablesExist\<close> probes the table with \<open>select('id').limit(1)\<close> and calls the
  server-side procedures that create the tables only when the answer says that the
  relation does not exist; every failure is caught. The table of the model exists, so
  the store is handed back as it is.
\<close>

definition ensureTablesExist :: "store \<Rightarrow> store" where
  "ensureTablesExist s =
     (case select_rows s [] None of
        Inl UndefinedTable \<Rightarrow> s
      | _ \<Rightarrow> s)"

text \<open>The part of \<open>fetchConversations\<close> that runs once the list query has answered.\<close>

definition fetchConversations_done ::
  "store_error + obj list \<Rightarrow> conversations_state \<Rightarrow> conversations_state" where
  "fetchConversations_done resp st =
     (case resp of
        Inl e \<Rightarrow> st\<lparr>loading := False, conversations := []\<rparr>
      | Inr data \<Rightarrow> st\<lparr>conversations := data, loading := False\<rparr>)"

definition list_query :: "string \<Rightarrow> string \<Rightarrow> store \<Rightarrow> store_error + obj list" where
  "list_query col uid s = select_rows s [Contains ''participants'' [uid]] (Some col)"

definition fetchConversations ::
  "store \<Rightarrow> string option \<Rightarrow> conversations_state \<Rightarrow> conversations_state \<times> store" where
  "fetchConversations s user st =
     (case user of
        None \<Rightarrow> (st, s)
      | Some uid \<Rightarrow>
          (let st1 = st\<lparr>loading := True\<rparr>;
               s1 = ensureTablesExist s
           in (fetchConversations_done (list_query ''lastMessageAt'' uid s1) st1, s1)))"

subsection \<open>\<open>useFetchConversations\<close>: the list fetch on the store's column names\<close>

definition map_conversation :: "obj \<Rightarrow> obj" where
  "map_conversation conv =
     [(''id'', getp conv ''id''),
      (''participants'', getp conv ''participants''),
      (''lastMessageAt'', getp conv ''last_message_at''),
      (''subject'', js_or (getp conv ''subject'') Undefined),
      (''propertyId'', js_or (getp conv ''property_id'') Undefined),
      (''unreadCount'', js_or (getp conv ''unread_count'') (Num 0))]"

definition fetchConversations_mapped ::
  "store \<Rightarrow> string option \<Rightarrow> conversations_state \<Rightarrow> obj list option \<times> conversations_state" where
  "fetchConversations_mapped s user st =
     (case user of
        None \<Rightarrow> (None, st)
      | Some uid \<Rightarrow>
          (let st1 = st\<lparr>loading := True\<rparr>
           in case list_query ''last_message_at'' uid s of
                Inl e \<Rightarrow> (None, st1\<lparr>loading := False, conversations := []\<rparr>)
              | Inr data \<Rightarrow>
                  (let mappedConversations = map map_conversation data
                   in (Some mappedConversations,
                       st1\<lparr>conversations := mappedConversations, loading := False\<rparr>))))"

subsection \<open>Two schemas and a sample table\<close>

text \<open>
  The two fetches name the columns differently: \<open>useConversations\<close> queries the
  client's field names, \<open>useFetchConversations\<close> the snake-case names it then maps.
\<close>

definition camel_columns :: "string list" where
  "camel_columns =
     [''id'', ''participants'', ''lastMessageAt'', ''subject'', ''propertyId'', ''unreadCount'']"

definition snake_columns :: "string list" where
  "snake_columns =
     [''id'', ''participants'', ''last_message_at'', ''subject'', ''property_id'', ''unread_count'']"

definition camel_row :: "int \<Rightarrow> string list \<Rightarrow> jsval \<Rightarrow> jsval \<Rightarrow> jsval \<Rightarrow> jsval \<Rightarrow> obj" where
  "camel_row i ps t subj pid n =
     [(''id'', Num i), (''participants'', Arr ps), (''lastMessageAt'', t), (''subject'', subj),
      (''propertyId'', pid), (''unreadCount'', n)]"

definition snake_row :: "int \<Rightarrow> string list \<Rightarrow> jsval \<Rightarrow> jsval \<Rightarrow> jsval \<Rightarrow> jsval \<Rightarrow> obj" where
  "snake_row i ps t subj pid n =
     [(''id'', Num i), (''participants'', Arr ps), (''last_message_at'', t), (''subject'', subj),
      (''property_id'', pid), (''unread_count'', n)]"

definition camel_store :: "obj list \<Rightarrow> store" where
  "camel_store rs =
     \<lparr>columns = camel_columns, rows = rs, next_id = Suc (length rs), unique_key = None,
      online = True\<rparr>"

definition snake_store :: "obj list \<Rightarrow> store" where
  "snake_store rs =
     \<lparr>columns = snake_columns, rows = rs, next_id = Suc (length rs), unique_key = None,
      online = True\<rparr>"

definition idle :: conversations_state where
  "idle = \<lparr>loading = False, conversations = [], currentConversation = None\<rparr>"

subsection \<open>\<open>useConversations\<close>: create or get\<close>

text \<open>
  \<open>createConversation\<close> first asks the store for a conversation of the two users with
  the property \<open>propertyId || ''\<close>, and inserts a new row with \<open>propertyId || null\<close>
  when the answer is empty (or an error, which is only logged). The two requests are
  separate awaits: \<open>createConversation_resume\<close> is what runs after the first answer, on
  the store as it is then. \<open>now\<close> is the clock reading of \<open>new Date()\<close>.
\<close>

definition existing_query ::
  "string \<Rightarrow> string \<Rightarrow> string option \<Rightarrow> store \<Rightarrow> store_error + obj list" where
  "existing_query uid receiverId propertyId s =
     select_rows s
       [Contains ''participants'' [uid, receiverId],
        Eq ''propertyId'' (js_or (opt propertyId) (Str []))] None"

definition newConversation ::
  "int \<Rightarrow> string \<Rightarrow> string \<Rightarrow> string option \<Rightarrow> string option \<Rightarrow> obj" where
  "newConversation now uid receiverId subject propertyId =
     [(''participants'', Arr [uid, receiverId]),
      (''lastMessageAt'', Num now),
      (''subject'', js_or (opt subject) (Str [])),
      (''propertyId'', js_or (opt propertyId) Null),
      (''unreadCount'', Num 0)]"

definition createConversation_resume ::
  "store_error + obj list \<Rightarrow> store \<Rightarrow> int \<Rightarrow> string \<Rightarrow> conversations_state \<Rightarrow>
   string \<Rightarrow> string option \<Rightarrow> string option \<Rightarrow>
   obj option \<times> conversations_state \<times> store" where
  "createConversation_resume existingConversations s now uid st receiverId subject propertyId =
     (case existingConversations of
        Inr (conversation # _) \<Rightarrow>
          (Some conversation,
           st\<lparr>currentConversation := Some conversation, loading := False\<rparr>, s)
      | _ \<Rightarrow>
          (case insert_row (ensureTablesExist s)
                  (newConversation now uid receiverId subject propertyId) of
             (Inl e, s') \<Rightarrow> (None, st\<lparr>loading := False\<rparr>, s')
           | (Inr conversation, s') \<Rightarrow>
               (Some conversation,
                st\<lparr>conversations := conversation # conversations st,
                   currentConversation := Some conversation, loading := False\<rparr>, s')))"

definition createConversation ::
  "store \<Rightarrow> int \<Rightarrow> string option \<Rightarrow> conversations_state \<Rightarrow>
   string \<Rightarrow> string option \<Rightarrow> string option \<Rightarrow> string option \<Rightarrow>
   obj option \<times> conversations_state \<times> store" where
  "createConversation s now user st receiverId subject initialMessage propertyId =
     (case user of
        None \<Rightarrow> (None, st, s)
      | Some uid \<Rightarrow>
          createConversation_resume (existing_query uid receiverId propertyId s) s now uid
            (st\<lparr>loading := True\<rparr>) receiverId subject propertyId)"


text \<open>
  Two clients calling \<open>createConversation\<close> at the same time: each runs on its own
  React state, and the store sees the two existence checks before the two inserts.
\<close>

definition createConversation_race ::
  "store \<Rightarrow> int \<Rightarrow> string \<Rightarrow> string \<Rightarrow> string \<Rightarrow> string \<Rightarrow> string option \<Rightarrow>
   obj option \<times> obj option \<times> store" where
  "createConversation_race s now uidA receiverA uidB receiverB propertyId =
     (let seenA = existing_query uidA receiverA propertyId s;
          seenB = existing_query uidB receiverB propertyId s
      in case createConversation_resume seenA s now uidA
                (idle\<lparr>loading := True\<rparr>) receiverA None propertyId of
           (resA, stA, s1) \<Rightarrow>
             (case createConversation_resume seenB s1 now uidB
                     (idle\<lparr>loading := True\<rparr>) receiverB None propertyId of
                (resB, stB, s2) \<Rightarrow> (resA, resB, s2)))"

section \<open>The messaging facade\<close>






definition handleCreateConversation ::
  "store \<Rightarrow> int \<Rightarrow> string option \<Rightarrow> conversations_state \<Rightarrow>
   (jsval \<Rightarrow> string \<Rightarrow> store \<Rightarrow> (store_error + unit) \<times> store) \<Rightarrow>
   string \<Rightarrow> string option \<Rightarrow> string option \<Rightarrow> string option \<Rightarrow>
   obj option \<times> conversations_state \<times> store" where
  "handleCreateConversation s now user st sendMessageBase receiverId subject initialMessage
     propertyId =
     (case createConversation s now user st receiverId subject initialMessage propertyId of
        (None, st1, s1) \<Rightarrow> (None, st1, s1)
      | (Some conversation, st1, s1) \<Rightarrow>
          (if truthy (opt initialMessage)
           then
             (case sendMessageBase (getp conversation ''id'') (case initialMessage of None \<Rightarrow> [] | Some m \<Rightarrow> m) s1 of
                (Inl e, s2) \<Rightarrow> (Some conversation, st1, s2)
              | (Inr u, s2) \<Rightarrow>
                  (case fetchConversations s2 user st1 of
                     (st2, s3) \<Rightarrow> (Some conversation, st2, s3)))
           else (Some conversation, st1, s1)))"

subsection \<open>The event loop of one client\<close>

text \<open>
  A client runs on one event loop: a handler runs up to its next \<open>await\<close>, and the
  awaited request stays pending until its answer arrives as a later event. The pending
  requests are the calls of \<open>fetchConversations\<close> waiting for the store, the calls of
  \<open>handleSendMessage\<close> waiting for \<open>sendMessageBase\<close> and those waiting for the
  refresh of the message list that follows it.
\<close>

datatype task = ListFetch | Sending jsval string | RefreshingMessages jsval

record client =
  session_user :: "string option"
  snapshot :: conversations_state
  pending :: "task list"

datatype event =
    ChangeNotification
  | SendMessage jsval string
  | Settled nat "store_error + obj list"

definition fetchConversations_start :: "client \<Rightarrow> client" where
  "fetchConversations_start c =
     (case session_user c of
        None \<Rightarrow> c
      | Some uid \<Rightarrow>
          c\<lparr>snapshot := (snapshot c)\<lparr>loading := True\<rparr>, pending := pending c @ [ListFetch]\<rparr>)"

definition settle :: "client \<Rightarrow> nat \<Rightarrow> store_error + obj list \<Rightarrow> client" where
  "settle c i resp =
     (if length (pending c) \<le> i then c
      else
        (let others = take i (pending c) @ drop (Suc i) (pending c)
         in case pending c ! i of
              ListFetch \<Rightarrow>
                c\<lparr>snapshot := fetchConversations_done resp (snapshot c), pending := others\<rparr>
            | Sending cid content \<Rightarrow>
                (case resp of
                   Inl e \<Rightarrow> c\<lparr>pending := others\<rparr>
                 | Inr d \<Rightarrow> c\<lparr>pending := others @ [RefreshingMessages cid]\<rparr>)
            | RefreshingMessages cid \<Rightarrow>
                (case resp of
                   Inl e \<Rightarrow> c\<lparr>pending := others\<rparr>
                 | Inr d \<Rightarrow> fetchConversations_start (c\<lparr>pending := others\<rparr>))))"

fun step :: "client \<Rightarrow> event \<Rightarrow> client" where
  "step c ChangeNotification = fetchConversations_start c"
| "step c (SendMessage cid content) = c\<lparr>pending := pending c @ [Sending cid content]\<rparr>"
| "step c (Settled i resp) = settle c i resp"

definition run :: "client \<Rightarrow> event list \<Rightarrow> client" where
  "run c evs = foldl step c evs"

definition list_fetches :: "client \<Rightarrow> nat" where
  "list_fetches c = length (filter (\<lambda>t. t = ListFetch) (pending c))"

definition sends_into :: "jsval \<Rightarrow> client \<Rightarrow> task list" where
  "sends_into cid c =
     filter (\<lambda>t. case t of Sending cid' content \<Rightarrow> cid' = cid | _ \<Rightarrow> False) (pending c)"

subsection \<open>\<open>ConversationView\<close>: the send button\<close>

text \<open>
  The view keeps the selected files and the flag \<open>isSending\<close>. The text of the input is
  the list of its UTF-16 code units, which is what \<open>trim\<close> looks at: it strips the white
  space and the line terminators of ECMAScript from both ends. \<open>handleSendMessage\<close>
  returns at once for a blank text without files and otherwise sets the flag and calls
  \<open>onSendMessage\<close>; the second component is that call, if made. When the awaited call
  settles, the selected files are cleared on success and the flag is reset in any case.
\<close>

record view_state =
  selectedFiles :: "string list"
  isSending :: bool

definition is_space :: "nat \<Rightarrow> bool" where
  "is_space u =
     (u \<in> set [0x0009, 0x000A, 0x000B, 0x000C, 0x000D, 0x0020, 0x00A0, 0x1680, 0x2028,
                0x2029, 0x202F, 0x205F, 0x3000, 0xFEFF]
      \<or> (0x2000 \<le> u \<and> u \<le> 0x200A))"

definition trim :: "nat list \<Rightarrow> nat list" where
  "trim s = rev (dropWhile is_space (rev (dropWhile is_space s)))"

text \<open>The code units of an ASCII text.\<close>

definition units :: "string \<Rightarrow> nat list" where
  "units s = map of_char s"

definition view_handleSendMessage ::
  "view_state \<Rightarrow> nat list \<Rightarrow> view_state \<times> (nat list \<times> string list option) option" where
  "view_handleSendMessage v content =
     (if trim content = [] \<and> length (selectedFiles v) = 0 then (v, None)
      else (v\<lparr>isSending := True\<rparr>,
            Some (content,
                  if length (selectedFiles v) > 0 then Some (selectedFiles v) else None)))"

definition view_send_settled :: "view_state \<Rightarrow> store_error + unit \<Rightarrow> view_state" where
  "view_send_settled v outcome =
     (case outcome of
        Inr u \<Rightarrow> v\<lparr>selectedFiles := [], isSending := False\<rparr>
      | Inl e \<Rightarrow> v\<lparr>isSending := False\<rparr>)"

subsection \<open>Comparing the two fetches\<close>

text \<open>
  A conversation as the client reads it: the values of the six fields of the
  \<open>Conversation\<close> type.
\<close>

definition field_values :: "obj \<Rightarrow> jsval list" where
  "field_values c = map (getp c) camel_columns"

section \<open>Ordering of the fetched list\<close>

lemma col_le_total: "col_le a b \<or> col_le b a"
  unfolding col_le_def by (rule linear)

lemma col_le_trans: "col_le a b \<Longrightarrow> col_le b c \<Longrightarrow> col_le a c"
  unfolding col_le_def by (rule order_trans)

lemma col_le_values:
  "col_le (Num m) (Num n) = (m \<le> n)"
  "col_le (Str x) (Str y) = (x \<le> y)"
  by (auto simp: col_le_def)

lemma col_le_Null: "col_le v Null"
  by (cases v) (simp_all add: col_le_def)

lemma col_le_antisym:
  "col_le a b \<Longrightarrow> col_le b a \<Longrightarrow> a = b \<or> (a \<in> {Null, Undefined} \<and> b \<in> {Null, Undefined})"
  by (cases a; cases b; auto simp: col_le_def)

lemma ensureTablesExist_same: "ensureTablesExist s = s"
  by (simp add: ensureTablesExist_def split: sum.splits store_error.splits)

lemma mset_insert_desc: "mset (insert_desc c r xs) = add_mset r (mset xs)"
  by (induction xs) auto

lemma mset_order_desc: "mset (order_desc c rs) = mset rs"
  unfolding order_desc_def by (induction rs) (simp_all add: mset_insert_desc)

lemma set_insert_desc: "set (insert_desc c r xs) = insert r (set xs)"
  by (induction xs) auto

lemma sorted_insert_desc:
  "sorted_wrt (desc_by c) xs \<Longrightarrow> sorted_wrt (desc_by c) (insert_desc c r xs)"
proof (induction xs)
  case Nil
  then show ?case by simp
next
  case (Cons x xs)
  show ?case
  proof (cases "desc_by c r x")
    case True
    have "desc_by c r y" if "y \<in> set xs" for y
    proof -
      from Cons.prems that have "desc_by c x y" by simp
      with True show ?thesis
        unfolding desc_by_def by (blast intro: col_le_trans)
    qed
    with True Cons.prems show ?thesis by auto
  next
    case False
    then have "desc_by c x r"
      using col_le_total [of "getp r c" "getp x c"] by (simp add: desc_by_def)
    with False Cons show ?thesis
      by (auto simp: set_insert_desc)
  qed
qed

lemma sorted_order_desc: "sorted_wrt (desc_by c) (order_desc c rs)"
  unfolding order_desc_def by (induction rs) (simp_all add: sorted_insert_desc)

lemma sorted_select_rows:
  "select_rows s fs (Some c) = Inr data \<Longrightarrow> sorted_wrt (desc_by c) data"
  by (auto simp: select_rows_def Let_def sorted_order_desc split: if_splits list.splits)

lemma lastMessageAt_mapped:
  "getp (map_conversation r) ''lastMessageAt'' = getp r ''last_message_at''"
  by (simp add: map_conversation_def getp_def)

lemma sorted_mapped:
  "sorted_wrt (desc_by ''last_message_at'') data \<Longrightarrow>
   sorted_wrt (desc_by ''lastMessageAt'') (map map_conversation data)"
proof -
  have "desc_by ''lastMessageAt'' (map_conversation a) (map_conversation b) =
        desc_by ''last_message_at'' a b" for a b
    by (simp add: desc_by_def lastMessageAt_mapped)
  then show "sorted_wrt (desc_by ''last_message_at'') data \<Longrightarrow>
    sorted_wrt (desc_by ''lastMessageAt'') (map map_conversation data)"
    by (simp add: sorted_wrt_map)
qed

lemmas store_eval =
  camel_store_def snake_store_def camel_row_def snake_row_def camel_columns_def
  snake_columns_def ensureTablesExist_def select_rows_def list_query_def order_desc_def
  desc_by_def col_le_def getp_def idle_def js_or_def insert_row_def stored_row_def
  same_key_def Let_def

text \<open>
  C8: for every store and every user, the conversation list that \<open>fetchConversations\<close>
  leaves in the state is in descending order of \<open>lastMessageAt\<close>: each conversation's
  \<open>lastMessageAt\<close> is at least that of every conversation after it, in the order of
  numbers for millisecond timestamps and in the lexicographic order for ISO strings
  (\<open>col_le\<close>). This holds for the fetch of \<open>useConversations\<close> and for the mapped fetch
  of \<open>useFetchConversations\<close>, for the list it stores and for the list it returns. The
  list is the user's conversations and nothing else: when the store answers, the fetch
  of \<open>useConversations\<close> holds exactly the stored rows that have the user among their
  participants, and the mapped fetch returns the list it stores, which holds exactly
  their identifiers, each with its stored \<open>last_message_at\<close> as \<open>lastMessageAt\<close>.
\<close>

theorem fetchConversations_descending:
  "sorted_wrt (desc_by ''lastMessageAt'') (conversations (fst (fetchConversations s (Some uid) st)))
   \<and> sorted_wrt (desc_by ''lastMessageAt'')
        (conversations (snd (fetchConversations_mapped s (Some uid) st)))
   \<and> sorted_wrt (desc_by ''lastMessageAt'')
        (case fst (fetchConversations_mapped s (Some uid) st) of None \<Rightarrow> [] | Some data \<Rightarrow> data)
   \<and> (online s \<and> ''participants'' \<in> set (columns s) \<and> ''lastMessageAt'' \<in> set (columns s) \<longrightarrow>
        mset (conversations (fst (fetchConversations s (Some uid) st)))
          = mset (filter (\<lambda>r. matches r (Contains ''participants'' [uid])) (rows s)))
   \<and> (online s \<and> ''participants'' \<in> set (columns s) \<and> ''last_message_at'' \<in> set (columns s) \<longrightarrow>
        fst (fetchConversations_mapped s (Some uid) st)
          = Some (conversations (snd (fetchConversations_mapped s (Some uid) st)))
        \<and> mset (map (\<lambda>c. (getp c ''id'', getp c ''lastMessageAt''))
                   (conversations (snd (fetchConversations_mapped s (Some uid) st))))
          = mset (map (\<lambda>r. (getp r ''id'', getp r ''last_message_at''))
                   (filter (\<lambda>r. matches r (Contains ''participants'' [uid])) (rows s))))"
proof (intro conjI impI)
  show "sorted_wrt (desc_by ''lastMessageAt'')
          (conversations (fst (fetchConversations s (Some uid) st)))"
    by (cases "list_query ''lastMessageAt'' uid (ensureTablesExist s)")
       (auto simp: fetchConversations_def fetchConversations_done_def Let_def list_query_def
             dest: sorted_select_rows)
  have m: "sorted_wrt (desc_by ''lastMessageAt'') (map map_conversation data)"
    if "list_query ''last_message_at'' uid s = Inr data" for data
    using that by (auto simp: list_query_def intro: sorted_mapped dest: sorted_select_rows)
  show "sorted_wrt (desc_by ''lastMessageAt'')
          (conversations (snd (fetchConversations_mapped s (Some uid) st)))"
    by (cases "list_query ''last_message_at'' uid s")
       (auto simp: fetchConversations_mapped_def Let_def m)
  show "sorted_wrt (desc_by ''lastMessageAt'')
          (case fst (fetchConversations_mapped s (Some uid) st) of
             None \<Rightarrow> [] | Some data \<Rightarrow> data)"
    by (cases "list_query ''last_message_at'' uid s")
       (auto simp: fetchConversations_mapped_def Let_def m)
next
  assume "online s \<and> ''participants'' \<in> set (columns s) \<and> ''lastMessageAt'' \<in> set (columns s)"
  then have "list_query ''lastMessageAt'' uid (ensureTablesExist s)
      = Inr (order_desc ''lastMessageAt''
               (filter (\<lambda>r. matches r (Contains ''participants'' [uid])) (rows s)))"
    by (simp add: list_query_def select_rows_def ensureTablesExist_same)
  then show "mset (conversations (fst (fetchConversations s (Some uid) st)))
          = mset (filter (\<lambda>r. matches r (Contains ''participants'' [uid])) (rows s))"
    by (simp add: fetchConversations_def fetchConversations_done_def Let_def mset_order_desc)
next
  assume "online s \<and> ''participants'' \<in> set (columns s) \<and> ''last_message_at'' \<in> set (columns s)"
  then have q: "list_query ''last_message_at'' uid s
      = Inr (order_desc ''last_message_at''
               (filter (\<lambda>r. matches r (Contains ''participants'' [uid])) (rows s)))"
    by (simp add: list_query_def select_rows_def)
  show "fst (fetchConversations_mapped s (Some uid) st)
          = Some (conversations (snd (fetchConversations_mapped s (Some uid) st)))"
    by (simp add: fetchConversations_mapped_def Let_def q)
  have f: "(\<lambda>c. (getp c ''id'', getp c ''lastMessageAt'')) \<circ> map_conversation
           = (\<lambda>r. (getp r ''id'', getp r ''last_message_at''))"
    by (rule ext) (simp add: map_conversation_def getp_def)
  have "mset (map (\<lambda>c. (getp c ''id'', getp c ''lastMessageAt''))
                (map map_conversation (order_desc ''last_message_at''
                   (filter (\<lambda>r. matches r (Contains ''participants'' [uid])) (rows s)))))
        = image_mset (\<lambda>r. (getp r ''id'', getp r ''last_message_at''))
            (mset (order_desc ''last_message_at''
                   (filter (\<lambda>r. matches r (Contains ''participants'' [uid])) (rows s))))"
    by (simp add: f)
  then show "mset (map (\<lambda>c. (getp c ''id'', getp c ''lastMessageAt''))
                   (conversations (snd (fetchConversations_mapped s (Some uid) st))))
          = mset (map (\<lambda>r. (getp r ''id'', getp r ''last_message_at''))
                   (filter (\<lambda>r. matches r (Contains ''participants'' [uid])) (rows s)))"
    by (simp add: fetchConversations_mapped_def Let_def q mset_order_desc)
qed

text \<open>
  On a table of four conversations, three of them of user \<open>u1\<close> and stored out of
  order, both fetches list the three with the latest first: the fetch of
  \<open>useConversations\<close> on millisecond timestamps, the mapped fetch on ISO strings.
\<close>

theorem fetchConversations_descending_witness:
  "online (camel_store
       [camel_row 1 [''u1'', ''u2''] (Num 10) (Str ''a'') Null (Num 0),
        camel_row 2 [''u3'', ''u1''] (Num 30) (Str ''b'') (Str ''p1'') (Num 1),
        camel_row 3 [''u2'', ''u3''] (Num 40) (Str ''c'') (Str ''p1'') (Num 2),
        camel_row 4 [''u1'', ''u4''] (Num 20) (Str ''d'') (Str ''p2'') (Num 0)])
   \<and> ''participants'' \<in> set camel_columns \<and> ''lastMessageAt'' \<in> set camel_columns
   \<and> ''participants'' \<in> set snake_columns \<and> ''last_message_at'' \<in> set snake_columns
   \<and> map (\<lambda>c. (getp c ''id'', getp c ''lastMessageAt''))
     (conversations (fst (fetchConversations
        (camel_store
           [camel_row 1 [''u1'', ''u2''] (Num 10) (Str ''a'') Null (Num 0),
            camel_row 2 [''u3'', ''u1''] (Num 30) (Str ''b'') (Str ''p1'') (Num 1),
            camel_row 3 [''u2'', ''u3''] (Num 40) (Str ''c'') (Str ''p1'') (Num 2),
            camel_row 4 [''u1'', ''u4''] (Num 20) (Str ''d'') (Str ''p2'') (Num 0)])
        (Some ''u1'') idle)))
     = [(Num 2, Num 30), (Num 4, Num 20), (Num 1, Num 10)]
   \<and> map_option (map (\<lambda>c. (getp c ''id'', getp c ''lastMessageAt'')))
     (fst (fetchConversations_mapped
        (snake_store
           [snake_row 1 [''u1'', ''u2''] (Str ''2024-01-05T10:00:00.000Z'') (Str ''a'') Null (Num 0),
            snake_row 2 [''u3'', ''u1''] (Str ''2024-03-01T08:30:00.000Z'') (Str ''b'') (Str ''p1'') (Num 1),
            snake_row 3 [''u2'', ''u3''] (Str ''2024-04-01T00:00:00.000Z'') (Str ''c'') (Str ''p1'') (Num 2),
            snake_row 4 [''u1'', ''u4''] (Str ''2024-02-11T23:59:59.000Z'') (Str ''d'') (Str ''p2'') (Num 0)])
        (Some ''u1'') idle))
     = Some [(Num 2, Str ''2024-03-01T08:30:00.000Z''), (Num 4, Str ''2024-02-11T23:59:59.000Z''),
             (Num 1, Str ''2024-01-05T10:00:00.000Z'')]"
  using fetchConversations_descending
    [of "camel_store
           [camel_row 1 [''u1'', ''u2''] (Num 10) (Str ''a'') Null (Num 0),
            camel_row 2 [''u3'', ''u1''] (Num 30) (Str ''b'') (Str ''p1'') (Num 1),
            camel_row 3 [''u2'', ''u3''] (Num 40) (Str ''c'') (Str ''p1'') (Num 2),
            camel_row 4 [''u1'', ''u4''] (Num 20) (Str ''d'') (Str ''p2'') (Num 0)]"
        "''u1''" idle]
    fetchConversations_descending
    [of "snake_store
           [snake_row 1 [''u1'', ''u2''] (Str ''2024-01-05T10:00:00.000Z'') (Str ''a'') Null (Num 0),
            snake_row 2 [''u3'', ''u1''] (Str ''2024-03-01T08:30:00.000Z'') (Str ''b'') (Str ''p1'') (Num 1),
            snake_row 3 [''u2'', ''u3''] (Str ''2024-04-01T00:00:00.000Z'') (Str ''c'') (Str ''p1'') (Num 2),
            snake_row 4 [''u1'', ''u4''] (Str ''2024-02-11T23:59:59.000Z'') (Str ''d'') (Str ''p2'') (Num 0)]"
        "''u1''" idle]
  by (simp add: store_eval fetchConversations_def fetchConversations_done_def
        fetchConversations_mapped_def map_conversation_def)

lemmas create_eval =
  existing_query_def newConversation_def createConversation_resume_def createConversation_def
  createConversation_race_def

section \<open>Create or get\<close>

text \<open>
  C1: two clients, \<open>u1\<close> writing to \<open>u2\<close> and \<open>u2\<close> writing to \<open>u1\<close> about the
  property \<open>p1\<close>, call \<open>createConversation\<close> on an empty table, and both existence
  checks are answered before either insert. Without a uniqueness constraint the table
  ends with two rows for the pair and the calls return the different ids 1 and 2. With a
  constraint on the pair and the property the second insert is refused and the second
  call returns \<open>null\<close> instead of the id of the row that won.
\<close>

theorem createConversation_race_duplicates:
  "(case createConversation_race (camel_store []) 100 ''u1'' ''u2'' ''u2'' ''u1'' (Some ''p1'') of
      (resA, resB, s) \<Rightarrow>
        (map_option (\<lambda>c. getp c ''id'') resA, map_option (\<lambda>c. getp c ''id'') resB,
         map (\<lambda>r. (getp r ''id'', getp r ''participants'', getp r ''propertyId'')) (rows s)))
   = (Some (Num 1), Some (Num 2),
      [(Num 1, Arr [''u1'', ''u2''], Str ''p1''), (Num 2, Arr [''u2'', ''u1''], Str ''p1'')])
   \<and>
   (case createConversation_race ((camel_store [])\<lparr>unique_key := Some ''propertyId''\<rparr>)
           100 ''u1'' ''u2'' ''u2'' ''u1'' (Some ''p1'') of
      (resA, resB, s) \<Rightarrow>
        (map_option (\<lambda>c. getp c ''id'') resA, map_option (\<lambda>c. getp c ''id'') resB,
         map (\<lambda>r. getp r ''id'') (rows s)))
   = (Some (Num 1), None, [Num 1])"
  by (simp add: store_eval create_eval insert_commute)

text \<open>
  C2: one client calls \<open>createConversation\<close> twice, one call after the other, for the
  same receiver and without a property. The first call stores the property as \<open>null\<close>,
  the check of the second asks for the property \<open>''\<close> and finds nothing, and a second
  row is inserted under a new id.
\<close>

theorem createConversation_twice_null_property:
  "(case createConversation (camel_store []) 100 (Some ''u1'') idle ''u2'' None None None of
      (first, st1, s1) \<Rightarrow>
        (case createConversation s1 200 (Some ''u1'') st1 ''u2'' None None None of
           (second, st2, s2) \<Rightarrow>
             (map_option (\<lambda>c. getp c ''id'') first, map_option (\<lambda>c. getp c ''id'') second,
              map (\<lambda>r. (getp r ''id'', getp r ''participants'', getp r ''propertyId''))
                (rows s2))))
   = (Some (Num 1), Some (Num 2),
      [(Num 1, Arr [''u1'', ''u2''], Null), (Num 2, Arr [''u1'', ''u2''], Null)])"
  by (simp add: store_eval create_eval)

section \<open>The unread count and the two fetches\<close>

text \<open>
  C9: a conversation stored with the unread count \<open>null\<close> reaches the state of
  \<open>useConversations\<close> with \<open>unreadCount = null\<close>, through its fetch and through the
  existing-conversation branch of \<open>createConversation\<close>, while the mapped fetch of
  \<open>useFetchConversations\<close> turns the same stored \<open>null\<close> into 0.
\<close>

theorem unreadCount_null_exposed:
  "map (\<lambda>c. getp c ''unreadCount'')
     (conversations (fst (fetchConversations
        (camel_store [camel_row 1 [''u1'', ''u2''] (Num 5) (Str ''Inquiry'') (Str ''p1'') Null])
        (Some ''u1'') idle))) = [Null]
   \<and> map_option (\<lambda>c. getp c ''unreadCount'')
     (fst (createConversation
        (camel_store [camel_row 1 [''u1'', ''u2''] (Num 5) (Str ''Inquiry'') (Str ''p1'') Null])
        9 (Some ''u1'') idle ''u2'' None None (Some ''p1''))) = Some Null
   \<and> map (\<lambda>c. getp c ''unreadCount'')
     (conversations (snd (fetchConversations_mapped
        (snake_store [snake_row 1 [''u1'', ''u2''] (Num 5) (Str ''Inquiry'') (Str ''p1'') Null])
        (Some ''u1'') idle))) = [Num 0]"
  by (simp add: store_eval create_eval fetchConversations_def fetchConversations_done_def
        fetchConversations_mapped_def map_conversation_def)

text \<open>
  C10: the two fetches on the same table and for the same user. On a table with the
  snake-case columns the fetch of \<open>useConversations\<close> fails on its order column and
  leaves an empty list where the mapped fetch lists the conversation; on a table with
  the client's field names as columns it is the other way round.
\<close>

theorem fetches_disagree:
  "map field_values (conversations (fst (fetchConversations
       (snake_store [snake_row 1 [''u1'', ''u2''] (Num 5) (Str ''Inquiry'') (Str ''p1'') (Num 2)])
       (Some ''u1'') idle))) = []
   \<and> map field_values (conversations (snd (fetchConversations_mapped
       (snake_store [snake_row 1 [''u1'', ''u2''] (Num 5) (Str ''Inquiry'') (Str ''p1'') (Num 2)])
       (Some ''u1'') idle)))
     = [[Num 1, Arr [''u1'', ''u2''], Num 5, Str ''Inquiry'', Str ''p1'', Num 2]]
   \<and> map field_values (conversations (fst (fetchConversations
       (camel_store [camel_row 1 [''u1'', ''u2''] (Num 5) (Str ''Inquiry'') (Str ''p1'') (Num 2)])
       (Some ''u1'') idle)))
     = [[Num 1, Arr [''u1'', ''u2''], Num 5, Str ''Inquiry'', Str ''p1'', Num 2]]
   \<and> map field_values (conversations (snd (fetchConversations_mapped
       (camel_store [camel_row 1 [''u1'', ''u2''] (Num 5) (Str ''Inquiry'') (Str ''p1'') (Num 2)])
       (Some ''u1'') idle))) = []"
  by (simp add: store_eval field_values_def fetchConversations_def fetchConversations_done_def
        fetchConversations_mapped_def map_conversation_def)

section \<open>Starting a conversation with an initial message\<close>

lemma select_rows_unordered_subset:
  "select_rows s fs None = Inr data \<Longrightarrow> set data \<subseteq> set (rows s)"
  by (auto simp: select_rows_def Let_def split: if_splits list.splits)

lemma insert_row_stored:
  "insert_row s r = (Inr conversation, s') \<Longrightarrow> conversation \<in> set (rows s')"
  by (auto simp: insert_row_def split: if_splits list.splits)

lemma createConversation_resume_stored:
  assumes "createConversation_resume existing s now uid st receiverId subject propertyId
             = (Some conversation, st', s')"
      and "\<And>data. existing = Inr data \<Longrightarrow> set data \<subseteq> set (rows s)"
  shows "conversation \<in> set (rows s')"
  using assms
  by (auto simp: createConversation_resume_def ensureTablesExist_same
           split: sum.splits list.splits prod.splits dest: insert_row_stored)

lemma createConversation_stored:
  "createConversation s now user st receiverId subject initialMessage propertyId
     = (Some conversation, st', s') \<Longrightarrow> conversation \<in> set (rows s')"
  by (auto simp: createConversation_def existing_query_def split: option.splits
           dest: createConversation_resume_stored select_rows_unordered_subset)

text \<open>
  C7: when \<open>handleCreateConversation\<close> is called with a non-empty initial message,
  \<open>createConversation\<close> returns a conversation and \<open>sendMessageBase\<close> then fails, the
  call still returns that conversation and leaves it selected; the facade sends no
  further request, so the store is as the failed send left it, and the conversation is
  still stored there provided the failed send itself removed no row.
\<close>

theorem initial_message_failure_keeps_conversation:
  assumes "createConversation s now user st receiverId subject (Some m) propertyId
             = (Some conversation, st1, s1)"
      and "m \<noteq> []"
      and "sendMessageBase (getp conversation ''id'') m s1 = (Inl e, s2)"
      and "set (rows s1) \<subseteq> set (rows s2)"
  shows "handleCreateConversation s now user st sendMessageBase receiverId subject (Some m)
           propertyId = (Some conversation, st1, s2)
         \<and> conversation \<in> set (rows s2)
         \<and> currentConversation st1 = Some conversation"
proof (intro conjI)
  show "handleCreateConversation s now user st sendMessageBase receiverId subject (Some m)
           propertyId = (Some conversation, st1, s2)"
    using assms(1-3) by (simp add: handleCreateConversation_def)
  from assms(1) have "conversation \<in> set (rows s1)" by (rule createConversation_stored)
  with assms(4) show "conversation \<in> set (rows s2)" by blast
  from assms(1) show "currentConversation st1 = Some conversation"
    by (auto simp: createConversation_def createConversation_resume_def
             split: option.splits sum.splits list.splits prod.splits)
qed

theorem initial_message_failure_keeps_conversation_witness:
  "createConversation (camel_store []) 100 (Some ''u1'') idle ''u2'' (Some ''Inquiry'')
       (Some ''Is this available?'') (Some ''p1'')
     = (Some (camel_row 1 [''u1'', ''u2''] (Num 100) (Str ''Inquiry'') (Str ''p1'') (Num 0)),
        idle\<lparr>conversations :=
                 [camel_row 1 [''u1'', ''u2''] (Num 100) (Str ''Inquiry'') (Str ''p1'') (Num 0)],
             currentConversation :=
                 Some (camel_row 1 [''u1'', ''u2''] (Num 100) (Str ''Inquiry'') (Str ''p1'') (Num 0))\<rparr>,
        camel_store [camel_row 1 [''u1'', ''u2''] (Num 100) (Str ''Inquiry'') (Str ''p1'') (Num 0)])
   \<and> handleCreateConversation (camel_store []) 100 (Some ''u1'') idle
         (\<lambda>cid content s. (Inl Unavailable, s)) ''u2'' (Some ''Inquiry'')
         (Some ''Is this available?'') (Some ''p1'')
     = (Some (camel_row 1 [''u1'', ''u2''] (Num 100) (Str ''Inquiry'') (Str ''p1'') (Num 0)),
        idle\<lparr>conversations :=
                 [camel_row 1 [''u1'', ''u2''] (Num 100) (Str ''Inquiry'') (Str ''p1'') (Num 0)],
             currentConversation :=
                 Some (camel_row 1 [''u1'', ''u2''] (Num 100) (Str ''Inquiry'') (Str ''p1'') (Num 0))\<rparr>,
        camel_store [camel_row 1 [''u1'', ''u2''] (Num 100) (Str ''Inquiry'') (Str ''p1'') (Num 0)])"
proof -
  let ?row = "camel_row 1 [''u1'', ''u2''] (Num 100) (Str ''Inquiry'') (Str ''p1'') (Num 0)"
  let ?st = "idle\<lparr>conversations := [?row], currentConversation := Some ?row\<rparr>"
  have c: "createConversation (camel_store []) 100 (Some ''u1'') idle ''u2'' (Some ''Inquiry'')
       (Some ''Is this available?'') (Some ''p1'') = (Some ?row, ?st, camel_store [?row])"
    by (simp add: store_eval create_eval)
  have m: "''Is this available?'' \<noteq> []" by simp
  from initial_message_failure_keeps_conversation
         [where sendMessageBase = "\<lambda>cid content s. (Inl Unavailable, s)"
            and e = Unavailable and ?s2.0 = "camel_store [?row]", OF c m] c
  show ?thesis by simp
qed

section \<open>Failing calls and the snapshot\<close>





section \<open>Opening a conversation\<close>




section \<open>Change notifications and sends on the event loop\<close>

text \<open>
  C5, as stated, fails: two change notifications arrive one after the other, and two
  fetches of the conversation list are in flight.
\<close>

theorem two_fetches_in_flight:
  "list_fetches (run \<lparr>session_user = Some ''u1'', snapshot = idle, pending = []\<rparr>
      [ChangeNotification, ChangeNotification]) = 2"
  by (simp add: run_def fetchConversations_start_def list_fetches_def)

lemma run_notifications:
  "session_user c = Some uid \<Longrightarrow>
   pending (run c (replicate n ChangeNotification)) = pending c @ replicate n ListFetch
   \<and> session_user (run c (replicate n ChangeNotification)) = Some uid"
proof (induction n arbitrary: c)
  case 0
  then show ?case by (simp add: run_def)
next
  case (Suc n)
  have u: "session_user (step c ChangeNotification) = Some uid"
    using Suc.prems by (simp add: fetchConversations_start_def)
  have p: "pending (step c ChangeNotification) = pending c @ [ListFetch]"
    using Suc.prems by (simp add: fetchConversations_start_def)
  have "run c (replicate (Suc n) ChangeNotification)
        = run (step c ChangeNotification) (replicate n ChangeNotification)"
    by (simp add: run_def)
  with Suc.IH [OF u] p show ?case
    by (simp add: replicate_app_Cons_same)
qed

text \<open>
  C5, amended: for a signed-in user every change notification starts a fetch of the
  conversation list of its own, whatever is in flight: one notification raises the
  number of fetches in flight by one, and \<open>n\<close> notifications arriving before any answer
  raise it by \<open>n\<close>.
\<close>

theorem every_notification_fetches:
  "session_user c = Some uid \<Longrightarrow>
   list_fetches (step c ChangeNotification) = Suc (list_fetches c)
   \<and> list_fetches (run c (replicate n ChangeNotification)) = list_fetches c + n"
  using run_notifications [of c uid n]
  by (simp add: list_fetches_def fetchConversations_start_def)

theorem every_notification_fetches_witness:
  "session_user \<lparr>session_user = Some ''u1'', snapshot = idle, pending = [ListFetch]\<rparr> = Some ''u1''
   \<and> list_fetches (step \<lparr>session_user = Some ''u1'', snapshot = idle, pending = [ListFetch]\<rparr>
        ChangeNotification) = 2
   \<and> list_fetches (run \<lparr>session_user = Some ''u1'', snapshot = idle, pending = [ListFetch]\<rparr>
        (replicate 3 ChangeNotification)) = 4"
  using every_notification_fetches
    [of "\<lparr>session_user = Some ''u1'', snapshot = idle, pending = [ListFetch]\<rparr>" "''u1''" 3]
  by (simp add: list_fetches_def)

text \<open>
  C6, as stated, fails: the facade's \<open>sendMessage\<close> is called twice for conversation 1
  before the first send has settled, and both sends are in flight; the view's
  \<open>handleSendMessage\<close> calls \<open>onSendMessage\<close> although \<open>isSending\<close> is set.
\<close>

theorem two_sends_in_flight:
  "sends_into (Num 1) (run \<lparr>session_user = Some ''u1'', snapshot = idle, pending = []\<rparr>
      [SendMessage (Num 1) ''first'', SendMessage (Num 1) ''second''])
     = [Sending (Num 1) ''first'', Sending (Num 1) ''second'']
   \<and> view_handleSendMessage \<lparr>selectedFiles = [], isSending = True\<rparr> (units ''second'')
     = (\<lparr>selectedFiles = [], isSending = True\<rparr>, Some (units ''second'', None))"
  by (simp add: run_def sends_into_def view_handleSendMessage_def trim_def is_space_def
        units_def)

lemma run_sends:
  "pending (run c (map (SendMessage cid) contents)) = pending c @ map (Sending cid) contents"
proof (induction contents arbitrary: c)
  case Nil
  show ?case by (simp add: run_def)
next
  case (Cons m ms)
  have "run c (map (SendMessage cid) (m # ms))
        = run (step c (SendMessage cid m)) (map (SendMessage cid) ms)"
    by (simp add: run_def)
  with Cons.IH [of "step c (SendMessage cid m)"] show ?case by simp
qed

text \<open>
  C6, amended: the facade does not serialize sends. Every call of its \<open>sendMessage\<close>
  starts a send at once and adds it to those in flight into the conversation, whatever
  is in flight already, so that any number of sends of one client into one conversation
  can be in flight together. The view, for a text that is not blank or with files
  selected, sets \<open>isSending\<close> and calls \<open>onSendMessage\<close> with the text and the files,
  whether \<open>isSending\<close> was set before or not; for a blank text without files it does
  nothing. Whenever an awaited send settles, the view resets \<open>isSending\<close> (and clears
  the selected files when the send succeeded), whether or not another send is still
  awaited.
\<close>

theorem send_starts_at_once:
  "sends_into cid (step c (SendMessage cid content)) = sends_into cid c @ [Sending cid content]
   \<and> sends_into cid (run c (map (SendMessage cid) contents))
       = sends_into cid c @ map (Sending cid) contents
   \<and> (\<not> (trim input = [] \<and> selectedFiles v = []) \<longrightarrow>
        view_handleSendMessage v input
          = (v\<lparr>isSending := True\<rparr>,
             Some (input, if selectedFiles v = [] then None else Some (selectedFiles v))))
   \<and> (trim input = [] \<and> selectedFiles v = [] \<longrightarrow> view_handleSendMessage v input = (v, None))
   \<and> view_send_settled v (Inr u) = v\<lparr>selectedFiles := [], isSending := False\<rparr>
   \<and> view_send_settled v (Inl e) = v\<lparr>isSending := False\<rparr>"
proof (intro conjI impI)
  show "sends_into cid (step c (SendMessage cid content))
          = sends_into cid c @ [Sending cid content]"
    by (simp add: sends_into_def)
  have "filter (\<lambda>t. case t of Sending cid' m \<Rightarrow> cid' = cid | _ \<Rightarrow> False)
          (map (Sending cid) contents) = map (Sending cid) contents"
    by (induction contents) simp_all
  then show "sends_into cid (run c (map (SendMessage cid) contents))
          = sends_into cid c @ map (Sending cid) contents"
    by (simp add: sends_into_def run_sends)
next
  assume "\<not> (trim input = [] \<and> selectedFiles v = [])"
  then show "view_handleSendMessage v input
          = (v\<lparr>isSending := True\<rparr>,
             Some (input, if selectedFiles v = [] then None else Some (selectedFiles v)))"
    by (auto simp: view_handleSendMessage_def)
next
  assume "trim input = [] \<and> selectedFiles v = []"
  then show "view_handleSendMessage v input = (v, None)"
    by (simp add: view_handleSendMessage_def)
next
  show "view_send_settled v (Inr u) = v\<lparr>selectedFiles := [], isSending := False\<rparr>"
    and "view_send_settled v (Inl e) = v\<lparr>isSending := False\<rparr>"
    by (simp_all add: view_send_settled_def)
qed

text \<open>
  A second send into conversation 1 joins the first, which is still in flight. In the
  view, \<open>second\<close> is sent although \<open>isSending\<close> is set, a text of a no-break space and a
  line feed is not sent, and the settling of one send resets the flag.
\<close>

theorem send_starts_at_once_witness:
  "trim (units ''second'') \<noteq> []
   \<and> trim [0x00A0, 0x000A] = []
   \<and> sends_into (Num 1)
     (step \<lparr>session_user = Some ''u1'', snapshot = idle, pending = [Sending (Num 1) ''first'']\<rparr>
        (SendMessage (Num 1) ''second''))
     = [Sending (Num 1) ''first'', Sending (Num 1) ''second'']
   \<and> view_handleSendMessage \<lparr>selectedFiles = [], isSending = True\<rparr> (units ''second'')
     = (\<lparr>selectedFiles = [], isSending = True\<rparr>, Some (units ''second'', None))
   \<and> view_handleSendMessage \<lparr>selectedFiles = [], isSending = False\<rparr> [0x00A0, 0x000A]
     = (\<lparr>selectedFiles = [], isSending = False\<rparr>, None)
   \<and> view_send_settled \<lparr>selectedFiles = [''plan.pdf''], isSending = True\<rparr> (Inr ())
     = \<lparr>selectedFiles = [], isSending = False\<rparr>"
  using send_starts_at_once
    [where cid = "Num 1"
       and c = "\<lparr>session_user = Some ''u1'', snapshot = idle,
                  pending = [Sending (Num 1) ''first'']\<rparr>"
       and content = "''second''" and contents = "[]"
       and input = "units ''second''" and v = "\<lparr>selectedFiles = [], isSending = True\<rparr>"
       and u = "()" and e = Unavailable]
    send_starts_at_once
    [where cid = "Num 1"
       and c = "\<lparr>session_user = Some ''u1'', snapshot = idle,
                  pending = [Sending (Num 1) ''first'']\<rparr>"
       and content = "''second''" and contents = "[]"
       and input = "[0x00A0, 0x000A]" and v = "\<lparr>selectedFiles = [], isSending = False\<rparr>"
       and u = "()" and e = Unavailable]
    send_starts_at_once
    [where cid = "Num 1"
       and c = "\<lparr>session_user = Some ''u1'', snapshot = idle,
                  pending = [Sending (Num 1) ''first'']\<rparr>"
       and content = "''second''" and contents = "[]"
       and input = "[]" and v = "\<lparr>selectedFiles = [''plan.pdf''], isSending = True\<rparr>"
       and u = "()" and e = Unavailable]
  by (simp add: sends_into_def trim_def is_space_def units_def)

section \<open>Create or get with a property\<close>

text \<open>
  With a non-empty \<open>propertyId\<close> the existence check looks for the value the insert
  stores. Whenever \<open>createConversation\<close> has returned a conversation, a later call of
  the same user for the same receiver and property on the store it left returns that
  conversation again and leaves store and state as they are.
\<close>

lemma getp_stored_row:
  "k \<in> set (columns s) \<Longrightarrow> k \<noteq> ''id'' \<Longrightarrow>
   getp (stored_row s r) k = (case map_of r k of None \<Rightarrow> Null | Some v \<Rightarrow> v)"
  by (simp add: getp_def stored_row_def map_of_map_restrict)

lemma existing_query_after_insert:
  assumes q: "existing_query uid receiverId (Some p) s = Inr []"
      and i: "insert_row s (newConversation now uid receiverId subject (Some p)) = (Inr conversation, s1)"
      and p: "p \<noteq> []"
  shows "existing_query uid receiverId (Some p) s1 = Inr [conversation]"
proof -
  from i have on: "online s"
    and cols: "set (map fst (newConversation now uid receiverId subject (Some p))) \<subseteq> set (columns s)"
    and c: "conversation = stored_row s (newConversation now uid receiverId subject (Some p))"
    and s1: "s1 = s\<lparr>rows := rows s @ [conversation], next_id := Suc (next_id s)\<rparr>"
    by (auto simp: insert_row_def filter_empty_conv split: if_splits list.splits)
  from cols have pc: "''participants'' \<in> set (columns s)" and qc: "''propertyId'' \<in> set (columns s)"
    by (simp_all add: newConversation_def)
  have gp: "getp conversation ''participants'' = Arr [uid, receiverId]"
    unfolding c using pc by (simp add: getp_stored_row newConversation_def)
  have gq: "getp conversation ''propertyId'' = Str p"
    unfolding c using qc p by (simp add: getp_stored_row newConversation_def js_or_def)
  from q on pc qc have none:
    "filter (\<lambda>r. list_all (matches r)
        [Contains ''participants'' [uid, receiverId], Eq ''propertyId'' (js_or (opt (Some p)) (Str []))])
      (rows s) = []"
    by (simp add: existing_query_def select_rows_def Let_def)
  show ?thesis
    using on pc qc none gp gq p
    by (simp add: existing_query_def select_rows_def Let_def s1 js_or_def)
qed

lemma createConversation_again_with_property:
  assumes "createConversation s now (Some uid) st receiverId subject initialMessage (Some p)
             = (Some conversation, st1, s1)"
      and "p \<noteq> []"
  shows "createConversation s1 now' (Some uid) st1 receiverId subject' initialMessage' (Some p)
           = (Some conversation, st1, s1)"
proof (cases "existing_query uid receiverId (Some p) s")
  case (Inl e)
  then have off: "\<not> online s \<or> ''participants'' \<notin> set (columns s) \<or> ''propertyId'' \<notin> set (columns s)"
    by (auto simp: existing_query_def select_rows_def Let_def split: if_splits list.splits)
  then have "fst (insert_row s (newConversation now uid receiverId subject (Some p))) \<noteq> Inr conversation"
    by (auto simp: insert_row_def newConversation_def split: list.splits)
  with assms(1) Inl show ?thesis
    by (auto simp: createConversation_def createConversation_resume_def ensureTablesExist_same
             split: prod.splits sum.splits)
next
  case (Inr data)
  show ?thesis
  proof (cases data)
    case Nil
    with Inr assms(1) obtain
      i: "insert_row s (newConversation now uid receiverId subject (Some p)) = (Inr conversation, s1)"
      and st1: "st1 = st\<lparr>loading := True, conversations := conversation # conversations st,
                   currentConversation := Some conversation, loading := False\<rparr>"
      by (auto simp: createConversation_def createConversation_resume_def ensureTablesExist_same
               split: prod.splits sum.splits)
    from Inr Nil have q: "existing_query uid receiverId (Some p) s = Inr []" by simp
    from existing_query_after_insert [OF q i assms(2)] show ?thesis
      by (simp add: createConversation_def createConversation_resume_def st1)
  next
    case (Cons c cs)
    with Inr assms(1) have "conversation = c" "s1 = s"
      "st1 = st\<lparr>loading := True, currentConversation := Some c, loading := False\<rparr>"
      by (auto simp: createConversation_def createConversation_resume_def)
    with Inr Cons show ?thesis
      by (simp add: createConversation_def createConversation_resume_def)
  qed
qed

end
